theory Spec2Isabelle
  imports Main "HOL-Library.Char_ord" "HOL-Library.List_Lexorder"
begin

section \<open>Diagnostics of the parser library (git-commit-parser, main.ts)\<close>

text \<open>
  \<^verbatim>\<open>export const enum ParseErrorCode { InvalidSymbol = 1, ..., InvalidCharacter = 16 }\<close>.
  A const enum is its number at run time, so \<open>printParseErrorCode\<close> switches over a
  number and has a default branch for every number that is no member of the enum.
\<close>

datatype ParseErrorCode =
    InvalidSymbol
  | InvalidNumberFormat
  | PropertyNameExpected
  | ValueExpected
  | ColonExpected
  | CommaExpected
  | CloseParenExpected
  | CloseBracketExpected
  | EndOfFileExpected
  | InvalidCommentToken
  | UnexpectedEndOfComment
  | UnexpectedEndOfString
  | UnexpectedEndOfNumber
  | InvalidUnicode
  | InvalidEscapeCharacter
  | InvalidCharacter

fun ParseErrorCode_value :: "ParseErrorCode \<Rightarrow> int" where
  "ParseErrorCode_value InvalidSymbol = 1"
| "ParseErrorCode_value InvalidNumberFormat = 2"
| "ParseErrorCode_value PropertyNameExpected = 3"
| "ParseErrorCode_value ValueExpected = 4"
| "ParseErrorCode_value ColonExpected = 5"
| "ParseErrorCode_value CommaExpected = 6"
| "ParseErrorCode_value CloseParenExpected = 7"
| "ParseErrorCode_value CloseBracketExpected = 8"
| "ParseErrorCode_value EndOfFileExpected = 9"
| "ParseErrorCode_value InvalidCommentToken = 10"
| "ParseErrorCode_value UnexpectedEndOfComment = 11"
| "ParseErrorCode_value UnexpectedEndOfString = 12"
| "ParseErrorCode_value UnexpectedEndOfNumber = 13"
| "ParseErrorCode_value InvalidUnicode = 14"
| "ParseErrorCode_value InvalidEscapeCharacter = 15"
| "ParseErrorCode_value InvalidCharacter = 16"

definition printParseErrorCode :: "int \<Rightarrow> string" where
  "printParseErrorCode code =
     (if code = 1 then ''InvalidSymbol''
      else if code = 2 then ''InvalidNumberFormat''
      else if code = 3 then ''PropertyNameExpected''
      else if code = 4 then ''ValueExpected''
      else if code = 5 then ''ColonExpected''
      else if code = 6 then ''CommaExpected''
      else if code = 7 then ''CloseParenExpected''
      else if code = 8 then ''CloseBracketExpected''
      else if code = 9 then ''EndOfFileExpected''
      else if code = 10 then ''InvalidCommentToken''
      else if code = 11 then ''UnexpectedEndOfComment''
      else if code = 12 then ''UnexpectedEndOfString''
      else if code = 13 then ''UnexpectedEndOfNumber''
      else if code = 14 then ''InvalidUnicode''
      else if code = 15 then ''InvalidEscapeCharacter''
      else if code = 16 then ''InvalidCharacter''
      else ''<unknown ParseErrorCode>'')"

text \<open>The fourteen codes that the specification lists as the error taxonomy, in its order.\<close>

definition spec_error_codes :: "ParseErrorCode list" where
  "spec_error_codes =
     [InvalidSymbol, InvalidNumberFormat, PropertyNameExpected, ValueExpected,
      ColonExpected, CloseParenExpected, EndOfFileExpected, InvalidCommentToken,
      UnexpectedEndOfComment, UnexpectedEndOfString, UnexpectedEndOfNumber,
      InvalidUnicode, InvalidEscapeCharacter, InvalidCharacter]"

text \<open>\<^verbatim>\<open>export type NodeType = 'message' | 'header' | ...\<close> (main.ts).\<close>

datatype NodeType =
    Message
  | Header
  | Type
  | ScopeParenOpen
  | Scope
  | ScopeParenClose
  | BreakingExclamationMark
  | Description
  | Body
  | BreakingChangeLiteral
  | Footer
  | FooterWordToken
  | FooterWord
  | FooterToken
  | Word
  | Whitespace
  | Number
  | Symbol

text \<open>
  \<^verbatim>\<open>export const enum ScanError { None = 0, InvalidUnicode = 1, InvalidCharacter = 2 }\<close> and
  \<^verbatim>\<open>export const enum SyntaxKind { WhiteSpace = 0, ..., Symbol = 10, EOF = 11 }\<close> (main.ts).
  The members of \<open>ScanError\<close> carry the enum's name, and \<open>SyntaxKind.Symbol\<close> is
  \<open>SymbolToken\<close>, since \<open>None\<close>, \<open>InvalidUnicode\<close>, \<open>InvalidCharacter\<close> and \<open>Symbol\<close> are
  taken.
\<close>

datatype ScanError = ScanError_None | ScanError_InvalidUnicode | ScanError_InvalidCharacter

datatype SyntaxKind =
    WhiteSpace
  | WordLiteral
  | NumericLiteral
  | OpenParenToken
  | CloseParenToken
  | ExclamationMarkToken
  | ColonToken
  | HashMarkToken
  | LineBreakToken
  | Comment
  | SymbolToken
  | EOF

text \<open>
  \<^verbatim>\<open>export interface Node { type, value?, offset, length, colonOffset?, parent?, children? }\<close>
  (main.ts). The tree owns its children; \<open>parent\<close> is the back reference to the owner and
  is not a field of the tree type. A node without \<open>children\<close> has the empty list.
\<close>

datatype Node =
  Node (node_type: NodeType) (node_value: "string option") (node_offset: nat) (node_length: nat)
       (colonOffset: "nat option") (children: "Node list")

section \<open>The completion provider (extension/server/src/completion-provider.ts)\<close>

subsection \<open>Values the provider reads\<close>

text \<open>
  The declaration of \<open>parser.ParseOutcome\<close> is not among the sources. The provider reads
  three fields of its optional \<open>header\<close>: \<open>scope\<close> and \<open>breakingExclamationMark\<close> through
  JavaScript truthiness (\<open>!!x\<close>, \<open>if (x)\<close>) and \<open>type\<close> through \<open>===\<close> against a string.
  The fields are therefore JavaScript values, with truthiness written out: \<open>undefined\<close>,
  \<open>false\<close> and the empty string are falsy.
\<close>

datatype jsval = JUndefined | JBool bool | JStr string

fun truthy :: "jsval \<Rightarrow> bool" where
  "truthy JUndefined = False"
| "truthy (JBool b) = b"
| "truthy (JStr s) = (s \<noteq> [])"

record HeaderOutcome =
  type :: jsval
  scope :: jsval
  breakingExclamationMark :: jsval

record ParseOutcome =
  header :: "HeaderOutcome option"

text \<open>\<open>parseOutcome.header?.f\<close>: \<open>undefined\<close> when there is no header.\<close>

definition header_field :: "(HeaderOutcome \<Rightarrow> jsval) \<Rightarrow> ParseOutcome \<Rightarrow> jsval" where
  "header_field f parseOutcome = (case header parseOutcome of None \<Rightarrow> JUndefined | Some h \<Rightarrow> f h)"

text \<open>
  A commitlint rule entry \<open>[severity, condition, allowedValues]\<close>; the provider reads each
  component with \<open>?.[i]\<close>, so each may be missing. \<open>ConfigSet\<close> is declared in
  commit-message-provider.ts (not among the sources); the provider reads
  \<open>config?.rules?.[name]\<close> and \<open>workspaceUri\<close>.
\<close>

record Rule =
  severity :: "int option"
  condition :: "string option"
  allowedValues :: "string list option"

record Config =
  rules :: "(string \<Rightarrow> Rule option) option"

record ConfigSet =
  config :: "Config option"
  workspaceUri :: "string option"





text \<open>The language-server protocol's items, as far as the provider fills them.\<close>

datatype CompletionItemKind = Enum | Operator

type_synonym Position = "nat \<times> nat"


record TextEdit =
  edit_range :: "Position \<times> Position"
  newText :: string

record CompletionItem =
  label :: string
  kind :: CompletionItemKind
  detail :: "string option"
  textEdit :: "TextEdit option"
  sortText :: "string option"
  insertText :: "string option"

subsection \<open>String conversions of JavaScript\<close>

text \<open>The template literal of an integer: its decimal digits, with a minus sign.\<close>

definition digit_char :: "nat \<Rightarrow> char" where
  "digit_char d = ''0123456789'' ! d"





subsection \<open>The provider's functions\<close>











definition getCompletionBreakingExclamationMark ::
  "ConfigSet \<Rightarrow> ParseOutcome \<Rightarrow> CompletionItem list" where
  "getCompletionBreakingExclamationMark configSet parseOutcome =
     (let existingBreakingExclamationMark = header_field breakingExclamationMark parseOutcome
      in if truthy existingBreakingExclamationMark then []
         else [\<lparr>label = ''Breaking Change \"!\"'', kind = Operator, detail = None,
                textEdit = None, sortText = None, insertText = Some ''!''\<rparr>])"

section \<open>The scanner (git-commit-parser, scanner.ts)\<close>

text \<open>
  Modelled from the spec: \<open>createScanner\<close> and the scanner it returns. main.ts declares the
  interface \<open>GitCommitScanner\<close> and binds \<open>createScanner\<close> to \<open>scanner.createScanner\<close>;
  scanner.ts itself is not among the sources. The model follows section 4.1 of the
  specification, bullet by bullet. The text is a JavaScript string, that is a list of
  UTF-16 code units. Where section 4.1 leaves a class of characters open, the reading is:
  letters are A-Z and a-z, word characters are letters, digits and the underscore, a run of
  word characters is a NumericLiteral when all of it is digits and a WordLiteral
  otherwise; the disallowed control characters are the code units below 32 and 127, apart
  from tab, line feed and a carriage return that a line feed follows; an invalid UTF-16
  sequence is a surrogate that is not half of a pair. Section 4.1 lists \<open>#\<close> both as a
  token of its own and as the start of a Comment and does not say which holds where, so
  that decision is a parameter of \<open>scan\<close> (\<open>commentStartsAt\<close>).
\<close>

type_synonym code_unit = nat

text \<open>
  Modelled from the spec: the character classes that section 4.1 names (decimal digits,
  letters, word characters, space and tab, the units of a line break, control characters,
  the two halves of a UTF-16 surrogate pair); scanner.ts, which would define them, is
  missing.
\<close>

definition isDigit :: "code_unit \<Rightarrow> bool" where
  "isDigit c = (48 \<le> c \<and> c \<le> 57)"

definition isLetter :: "code_unit \<Rightarrow> bool" where
  "isLetter c = ((65 \<le> c \<and> c \<le> 90) \<or> (97 \<le> c \<and> c \<le> 122))"

definition isWordCharacter :: "code_unit \<Rightarrow> bool" where
  "isWordCharacter c = (isLetter c \<or> isDigit c \<or> c = 95)"

definition isSpaceOrTab :: "code_unit \<Rightarrow> bool" where
  "isSpaceOrTab c = (c = 32 \<or> c = 9)"

definition isLineBreakUnit :: "code_unit \<Rightarrow> bool" where
  "isLineBreakUnit c = (c = 10 \<or> c = 13)"

definition isControl :: "code_unit \<Rightarrow> bool" where
  "isControl c = (c < 32 \<or> c = 127)"

definition isHighSurrogate :: "code_unit \<Rightarrow> bool" where
  "isHighSurrogate c = (55296 \<le> c \<and> c \<le> 56319)"

definition isLowSurrogate :: "code_unit \<Rightarrow> bool" where
  "isLowSurrogate c = (56320 \<le> c \<and> c \<le> 57343)"

text \<open>
  Modelled from the spec: the "run" of section 4.1 (scanner.ts is missing), as the length
  of the longest stretch of units satisfying \<open>p\<close> that starts at index \<open>i\<close>.
\<close>

definition run_length :: "(code_unit \<Rightarrow> bool) \<Rightarrow> code_unit list \<Rightarrow> nat \<Rightarrow> nat" where
  "run_length p txt i = length (takeWhile p (drop i txt))"

text \<open>
  Modelled from the spec: what section 4.1 calls an offending unit (scanner.ts is
  missing). The unit at index \<open>i\<close> of a text is a disallowed control character, or it is
  a surrogate that is not half of a pair: a low surrogate with no high surrogate right
  before it, or a high surrogate with no low surrogate right after it. \<open>unit_error\<close> is
  the error to report for the unit, and \<open>first_error\<close> the first error in a list of them.
\<close>

definition disallowedControl :: "code_unit list \<Rightarrow> nat \<Rightarrow> bool" where
  "disallowedControl txt i =
     (isControl (txt ! i) \<and> txt ! i \<noteq> 9 \<and> txt ! i \<noteq> 10
      \<and> \<not> (txt ! i = 13 \<and> Suc i < length txt \<and> txt ! Suc i = 10))"

definition loneSurrogate :: "code_unit list \<Rightarrow> nat \<Rightarrow> bool" where
  "loneSurrogate txt i =
     ((isLowSurrogate (txt ! i) \<and> \<not> (0 < i \<and> isHighSurrogate (txt ! (i - 1))))
      \<or> (isHighSurrogate (txt ! i) \<and> \<not> (Suc i < length txt \<and> isLowSurrogate (txt ! Suc i))))"

definition unit_error :: "code_unit list \<Rightarrow> nat \<Rightarrow> ScanError" where
  "unit_error txt i =
     (if disallowedControl txt i then ScanError_InvalidCharacter
      else if loneSurrogate txt i then ScanError_InvalidUnicode
      else ScanError_None)"

fun first_error :: "ScanError list \<Rightarrow> ScanError" where
  "first_error [] = ScanError_None"
| "first_error (e # es) = (if e = ScanError_None then first_error es else e)"

text \<open>
  Modelled from the spec: the scanner's state, one field per accessor of the interface
  \<open>GitCommitScanner\<close> (\<open>getTokenLength\<close> is the length of \<open>tokenValue\<close>), and the line and
  column counters of section 4.1. \<open>token\<close> is \<open>None\<close> as long as no token has been read
  since the scanner was created or its position was set.
\<close>

record Scanner =
  source :: "code_unit list"
  pos :: nat
  token :: "SyntaxKind option"
  tokenValue :: "code_unit list"
  tokenOffset :: nat
  tokenStartLine :: nat
  tokenStartCharacter :: nat
  scanError :: ScanError
  lineNumber :: nat
  lineStartOffset :: nat

text \<open>Modelled from the spec: \<open>createScanner(text)\<close>, a cursor at position 0 (scanner.ts is missing).\<close>

definition createScanner :: "code_unit list \<Rightarrow> Scanner" where
  "createScanner txt =
     \<lparr>source = txt, pos = 0, token = None, tokenValue = [], tokenOffset = 0,
      tokenStartLine = 0, tokenStartCharacter = 0, scanError = ScanError_None,
      lineNumber = 0, lineStartOffset = 0\<rparr>"

text \<open>
  Modelled from the spec: \<open>setPosition(pos)\<close> of the missing scanner.ts; it moves the cursor
  and invalidates the last token.
\<close>

definition setPosition :: "nat \<Rightarrow> Scanner \<Rightarrow> Scanner" where
  "setPosition newPosition s =
     s\<lparr>pos := newPosition, token := None, tokenValue := [], scanError := ScanError_None\<rparr>"

text \<open>
  Modelled from the spec: the end of every branch of \<open>scan\<close> in the missing scanner.ts. The
  token of kind \<open>k\<close> is the next \<open>n\<close> units; its start line and start character are
  read from the counters before a line break advances them for the next token.
\<close>

definition emit :: "Scanner \<Rightarrow> SyntaxKind \<Rightarrow> nat \<Rightarrow> ScanError \<Rightarrow> SyntaxKind \<times> Scanner" where
  "emit s k n e =
     (k, s\<lparr>pos := pos s + n, token := Some k,
           tokenValue := take n (drop (pos s) (source s)),
           tokenOffset := pos s, tokenStartLine := lineNumber s,
           tokenStartCharacter := pos s - lineStartOffset s, scanError := e,
           lineNumber := (if k = LineBreakToken then lineNumber s + 1 else lineNumber s),
           lineStartOffset := (if k = LineBreakToken then pos s + n else lineStartOffset s)\<rparr>)"

text \<open>
  Modelled from the spec: \<open>scan()\<close> of the missing scanner.ts, the classification of
  section 4.1 in its order. It returns the kind and the scanner after the call. A Comment
  takes the whole rest of the line, as section 4.1 says, and reports the first offending
  unit in it; every other token that holds an offending unit is that unit alone.
\<close>

definition scan :: "(code_unit list \<Rightarrow> nat \<Rightarrow> bool) \<Rightarrow> Scanner \<Rightarrow> SyntaxKind \<times> Scanner" where
  "scan commentStartsAt s =
     (let txt = source s; p = pos s
      in if length txt \<le> p then emit s EOF 0 ScanError_None
         else
           (let c = txt ! p
            in if isWordCharacter c then
                 (let n = run_length isWordCharacter txt p
                  in emit s (if list_all isDigit (take n (drop p txt)) then NumericLiteral
                             else WordLiteral) n ScanError_None)
               else if c = 40 then emit s OpenParenToken 1 ScanError_None
               else if c = 41 then emit s CloseParenToken 1 ScanError_None
               else if c = 33 then emit s ExclamationMarkToken 1 ScanError_None
               else if c = 58 then emit s ColonToken 1 ScanError_None
               else if c = 35 then
                 (if commentStartsAt txt p
                  then (let n = run_length (\<lambda>u. \<not> isLineBreakUnit u) txt p
                        in emit s Comment n (first_error (map (unit_error txt) [p ..< p + n])))
                  else emit s HashMarkToken 1 ScanError_None)
               else if c = 10 then emit s LineBreakToken 1 ScanError_None
               else if c = 13 \<and> Suc p < length txt \<and> txt ! Suc p = 10
                 then emit s LineBreakToken 2 ScanError_None
               else if isSpaceOrTab c
                 then emit s WhiteSpace (run_length isSpaceOrTab txt p) ScanError_None
               else if isControl c then emit s SymbolToken 1 ScanError_InvalidCharacter
               else if isHighSurrogate c \<and> Suc p < length txt \<and> isLowSurrogate (txt ! Suc p)
                 then emit s SymbolToken 2 ScanError_None
               else if isHighSurrogate c \<or> isLowSurrogate c
                 then emit s SymbolToken 1 ScanError_InvalidUnicode
               else emit s SymbolToken 1 ScanError_None))"

text \<open>\<open>n\<close> calls of \<open>scan\<close> in a row, each on the scanner the call before left.\<close>

fun scans :: "(code_unit list \<Rightarrow> nat \<Rightarrow> bool) \<Rightarrow> nat \<Rightarrow> Scanner \<Rightarrow> Scanner" where
  "scans c 0 s = s"
| "scans c (Suc n) s = scans c n (snd (scan c s))"

text \<open>One choice for the parameter: a \<open>#\<close> starts a comment at the start of a line.\<close>

definition atLineStart :: "code_unit list \<Rightarrow> nat \<Rightarrow> bool" where
  "atLineStart txt p = (p = 0 \<or> txt ! (p - 1) = 10)"

text \<open>
  A text of four code units with malformed input: the letter \<open>f\<close>, a low surrogate with
  no high surrogate before it, the control character 7, and a high surrogate at the end.
\<close>

definition malformed_text :: "code_unit list" where
  "malformed_text = [102, 56320, 7, 55357]"

text \<open>A comment line that holds the control character 7: \<open>#\<close> and the bell.\<close>

definition comment_text :: "code_unit list" where
  "comment_text = [35, 7]"

section \<open>Offset queries (git-commit-parser, parser.ts)\<close>

text \<open>
  Modelled from the spec: \<open>findNodeAtOffset\<close>. main.ts binds it to \<open>parser.findNodeAtOffset\<close>
  and documents it ("Finds the innermost node at the given offset. If includeRightBound
  is set, also finds nodes that end at the given offset."); parser.ts is not among the
  sources. The model follows section 4.5: a node is eligible when its half-open range
  holds the offset, or, with \<open>includeRightBound\<close>, when it ends exactly at the offset; the
  descent goes into the first eligible child at each level and returns the innermost
  eligible node, and nothing when the root is not eligible.
\<close>





fun nodes_of :: "Node \<Rightarrow> Node list" where
  "nodes_of (Node t v off len co cs) = Node t v off len co cs # concat (map nodes_of cs)"






section \<open>Example inputs of the completion provider\<close>


definition example_type_rule :: Rule where
  "example_type_rule =
     \<lparr>severity = Some 2, condition = Some ''always'', allowedValues = Some [''feat'', ''fix'']\<rparr>"

definition example_scope_rule :: Rule where
  "example_scope_rule =
     \<lparr>severity = Some 2, condition = Some ''always'', allowedValues = Some [''core'', ''docs'']\<rparr>"

definition example_configSet :: ConfigSet where
  "example_configSet =
     \<lparr>config = Some \<lparr>rules = Some [''type-enum'' \<mapsto> example_type_rule,
                                     ''scope-enum'' \<mapsto> example_scope_rule]\<rparr>,
      workspaceUri = Some ''file:///repo''\<rparr>"




definition example_outcome :: ParseOutcome where
  "example_outcome =
     \<lparr>header = Some \<lparr>type = JStr ''feat'', scope = JUndefined,
                       breakingExclamationMark = JUndefined\<rparr>\<rparr>"

definition example_breaking_outcome :: ParseOutcome where
  "example_breaking_outcome =
     \<lparr>header = Some \<lparr>type = JStr ''feat'', scope = JStr ''core'',
                       breakingExclamationMark = JBool True\<rparr>\<rparr>"

section \<open>Theorems\<close>

subsection \<open>Decimal sort keys\<close>

lemma digit_char_code: "d < 10 \<Longrightarrow> (of_char (digit_char d) :: nat) = 48 + d"
proof -
  assume "d < 10"
  then have "d \<in> {0,1,2,3,4,5,6,7,8,9}" by auto
  then show ?thesis by (auto simp: digit_char_def)
qed


lemma digit_char_eq:
  assumes "a < 10" "b < 10"
  shows "(digit_char a = digit_char b) = (a = b)"
proof
  assume "digit_char a = digit_char b"
  then have "(of_char (digit_char a) :: nat) = of_char (digit_char b)" by (rule arg_cong)
  then show "a = b"
    by (simp only: digit_char_code [OF assms(1)] digit_char_code [OF assms(2)] add_left_cancel)
next
  assume "a = b" then show "digit_char a = digit_char b" by (rule arg_cong)
qed


lemma lex3_less:
  fixes a2 a1 a0 b2 b1 b0 :: nat
  assumes "a1 < 10" "a0 < 10" "b1 < 10" "b0 < 10"
  shows "(a2 < b2 \<or> a2 = b2 \<and> (a1 < b1 \<or> a1 = b1 \<and> a0 < b0))
           = (100 * a2 + 10 * a1 + a0 < 100 * b2 + 10 * b1 + b0)"
  using assms by linarith

lemma lex3_eq:
  fixes a2 a1 a0 b2 b1 b0 :: nat
  assumes "a1 < 10" "a0 < 10" "b1 < 10" "b0 < 10"
  shows "(a2 = b2 \<and> a1 = b1 \<and> a0 = b0)
           = (100 * a2 + 10 * a1 + a0 = 100 * b2 + 10 * b1 + b0)"
  using lex3_less [OF assms, of a2 b2] lex3_less [OF assms(3,4,1,2), of b2 a2]
  by (metis less_irrefl nat_neq_iff)

lemma digits3: "(n::nat) = 100 * (n div 100) + 10 * (n div 10 mod 10) + n mod 10"
proof -
  have "n div 10 = 10 * (n div 10 div 10) + n div 10 mod 10" by simp
  moreover have "n div 10 div 10 = n div 100" by (simp add: div_mult2_eq)
  moreover have "n = 10 * (n div 10) + n mod 10" by simp
  ultimately show ?thesis by linarith
qed


lemma key3_eq:
  assumes "n < 1000" "m < 1000"
  shows "([digit_char (n div 100), digit_char (n div 10 mod 10), digit_char (n mod 10)]
          = [digit_char (m div 100), digit_char (m div 10 mod 10), digit_char (m mod 10)]) = (n = m)"
proof -
  have b: "n div 100 < 10" "m div 100 < 10" using assms by auto
  have c: "n div 10 mod 10 < 10" "n mod 10 < 10" "m div 10 mod 10 < 10" "m mod 10 < 10" by auto
  have "([digit_char (n div 100), digit_char (n div 10 mod 10), digit_char (n mod 10)]
          = [digit_char (m div 100), digit_char (m div 10 mod 10), digit_char (m mod 10)])
        = (n div 100 = m div 100 \<and> n div 10 mod 10 = m div 10 mod 10 \<and> n mod 10 = m mod 10)"
    using b c by (simp add: digit_char_eq)
  also have "\<dots> = (100 * (n div 100) + 10 * (n div 10 mod 10) + n mod 10
                     = 100 * (m div 100) + 10 * (m div 10 mod 10) + m mod 10)"
    by (rule lex3_eq [OF c])
  also have "\<dots> = (n = m)"
    using digits3 [of n] digits3 [of m] by simp
  finally show ?thesis .
qed



subsection \<open>The branches of the completion functions\<close>



















subsection \<open>The scanner\<close>

lemma run_length_pos:
  assumes "i < length txt" "p (txt ! i)"
  shows "0 < run_length p txt i"
proof -
  from assms(1) have "drop i txt = txt ! i # drop (Suc i) txt" by (simp add: Cons_nth_drop_Suc)
  with assms(2) show ?thesis by (simp add: run_length_def)
qed

lemma run_length_bound: "i + run_length p txt i \<le> max i (length txt)"
proof -
  have "length (takeWhile p (drop i txt)) \<le> length (drop i txt)" by (rule length_takeWhile_le)
  then show ?thesis by (simp add: run_length_def)
qed

lemma pos_emit: "pos (snd (emit s k n e)) = pos s + n"
  by (simp add: emit_def)

lemma scan_advances:
  assumes "pos s < length (source s)"
  shows "pos s < pos (snd (scan c s)) \<and> pos (snd (scan c s)) \<le> length (source s)"
proof -
  let ?t = "source s" and ?p = "pos s"
  have w: "isWordCharacter (?t ! ?p) \<Longrightarrow> 0 < run_length isWordCharacter ?t ?p"
    using assms by (rule run_length_pos)
  have sp: "isSpaceOrTab (?t ! ?p) \<Longrightarrow> 0 < run_length isSpaceOrTab ?t ?p"
    using assms by (rule run_length_pos)
  have cm: "?t ! ?p = 35 \<Longrightarrow> 0 < run_length (\<lambda>u. \<not> isLineBreakUnit u) ?t ?p"
    using assms by (intro run_length_pos) (simp_all add: isLineBreakUnit_def)
  have b: "\<And>q. ?p + run_length q ?t ?p \<le> length ?t"
    using run_length_bound [of ?p _ ?t] assms by (simp add: max_def)
  show ?thesis
    using assms w sp cm b
    by (auto simp add: scan_def Let_def pos_emit)
qed

lemma scan_EOF:
  assumes "length (source s) \<le> pos s"
  shows "fst (scan c s) = EOF" "pos (snd (scan c s)) = pos s"
  using assms by (simp_all add: scan_def Let_def emit_def)

lemma source_scan: "source (snd (scan c s)) = source s"
  by (simp add: scan_def Let_def emit_def)

lemma scans_exhausts:
  "length (source s) - pos s \<le> n \<Longrightarrow>
   length (source (scans c n s)) \<le> pos (scans c n s)"
proof (induction n arbitrary: s)
  case 0
  then show ?case by simp
next
  case (Suc n)
  show ?case
  proof (cases "pos s < length (source s)")
    case True
    from scan_advances [OF True, of c] Suc.prems
    have "length (source (snd (scan c s))) - pos (snd (scan c s)) \<le> n"
      unfolding source_scan by linarith
    from Suc.IH [OF this] show ?thesis by simp
  next
    case False
    then have "length (source (snd (scan c s))) - pos (snd (scan c s)) \<le> n"
      by (simp add: source_scan scan_EOF(2))
    from Suc.IH [OF this] show ?thesis by simp
  qed
qed

lemma scan_invalid_character:
  assumes "pos s < length (source s)" "isControl (source s ! pos s)"
    "source s ! pos s \<noteq> 9" "source s ! pos s \<noteq> 10"
    "\<not> (source s ! pos s = 13 \<and> Suc (pos s) < length (source s) \<and> source s ! Suc (pos s) = 10)"
  shows "scanError (snd (scan c s)) = ScanError_InvalidCharacter"
    and "pos (snd (scan c s)) = pos s + 1"
proof -
  define u where "u = source s ! pos s"
  have ctl: "u < 32 \<or> u = 127" using assms(2) by (simp add: u_def isControl_def)
  then have f: "\<not> isWordCharacter u" "u \<noteq> 40" "u \<noteq> 41" "u \<noteq> 33" "u \<noteq> 58" "u \<noteq> 35"
    by (auto simp add: isWordCharacter_def isLetter_def isDigit_def)
  have g: "\<not> isSpaceOrTab u" "u \<noteq> 10"
    using ctl assms(3,4) by (auto simp add: isSpaceOrTab_def u_def)
  have h: "\<not> (u = 13 \<and> Suc (pos s) < length (source s) \<and> source s ! Suc (pos s) = 10)"
    using assms(5) by (simp add: u_def)
  have "scan c s = emit s SymbolToken 1 ScanError_InvalidCharacter"
    using assms(1,2) f g h unfolding scan_def Let_def u_def [symmetric]
    by (auto simp add: u_def [symmetric])
  then show "scanError (snd (scan c s)) = ScanError_InvalidCharacter"
    and "pos (snd (scan c s)) = pos s + 1"
    by (simp_all add: emit_def)
qed

lemma scan_invalid_unicode:
  assumes "pos s < length (source s)"
    "isLowSurrogate (source s ! pos s)
     \<or> (isHighSurrogate (source s ! pos s)
        \<and> \<not> (Suc (pos s) < length (source s) \<and> isLowSurrogate (source s ! Suc (pos s))))"
  shows "scanError (snd (scan c s)) = ScanError_InvalidUnicode"
    and "pos (snd (scan c s)) = pos s + 1"
proof -
  define u where "u = source s ! pos s"
  have big: "55296 \<le> u"
    using assms(2) by (auto simp add: u_def isLowSurrogate_def isHighSurrogate_def)
  then have f: "\<not> isWordCharacter u" "u \<noteq> 40" "u \<noteq> 41" "u \<noteq> 33" "u \<noteq> 58" "u \<noteq> 35"
    "u \<noteq> 10" "u \<noteq> 13" "\<not> isSpaceOrTab u" "\<not> isControl u"
    by (auto simp add: isWordCharacter_def isLetter_def isDigit_def isSpaceOrTab_def isControl_def)
  have lo: "isLowSurrogate u \<Longrightarrow> \<not> isHighSurrogate u"
    by (simp add: isLowSurrogate_def isHighSurrogate_def)
  have pair: "\<not> (isHighSurrogate u \<and> Suc (pos s) < length (source s)
                  \<and> isLowSurrogate (source s ! Suc (pos s)))"
    using assms(2) lo by (auto simp add: u_def)
  have sur: "isHighSurrogate u \<or> isLowSurrogate u"
    using assms(2) by (auto simp add: u_def)
  have "scan c s = emit s SymbolToken 1 ScanError_InvalidUnicode"
    using assms(1) f pair sur unfolding scan_def Let_def u_def [symmetric]
    by (auto simp add: u_def [symmetric])
  then show "scanError (snd (scan c s)) = ScanError_InvalidUnicode"
    and "pos (snd (scan c s)) = pos s + 1"
    by (simp_all add: emit_def)
qed

lemma first_error_None: "(first_error es = ScanError_None) = (\<forall>e \<in> set es. e = ScanError_None)"
  by (induction es) auto

lemma run_units:
  assumes "p \<le> i" "i < p + run_length q txt p"
  shows "q (txt ! i)"
proof -
  let ?r = "takeWhile q (drop p txt)"
  have l: "i - p < length ?r" using assms by (simp add: run_length_def)
  then have "?r ! (i - p) \<in> set ?r" by (rule nth_mem)
  then have "q (?r ! (i - p))" by (rule set_takeWhileD [THEN conjunct2])
  moreover have "?r ! (i - p) = drop p txt ! (i - p)" using l by (rule takeWhile_nth)
  moreover have "i - p < length (drop p txt)"
    using l length_takeWhile_le [of q "drop p txt"] by linarith
  then have "drop p txt ! (i - p) = txt ! i" using assms(1) by simp
  ultimately show ?thesis by simp
qed

lemma plain_unit_ok:
  "\<not> isControl (txt ! i) \<Longrightarrow> \<not> isHighSurrogate (txt ! i) \<Longrightarrow> \<not> isLowSurrogate (txt ! i)
   \<Longrightarrow> unit_error txt i = ScanError_None"
  by (simp add: unit_error_def disallowedControl_def loneSurrogate_def)

lemma printable_unit_ok:
  assumes "32 \<le> txt ! i" "txt ! i < 127"
  shows "unit_error txt i = ScanError_None"
proof (rule plain_unit_ok)
  show "\<not> isControl (txt ! i)" using assms by (simp add: isControl_def)
  show "\<not> isHighSurrogate (txt ! i)" using assms by (simp add: isHighSurrogate_def)
  show "\<not> isLowSurrogate (txt ! i)" using assms by (simp add: isLowSurrogate_def)
qed

lemma word_unit_ok:
  assumes "isWordCharacter (txt ! i)"
  shows "unit_error txt i = ScanError_None"
proof -
  have "32 \<le> txt ! i \<and> txt ! i < 127"
    using assms unfolding isWordCharacter_def isLetter_def isDigit_def by linarith
  then show ?thesis using printable_unit_ok by blast
qed

lemma tab_unit_ok: "txt ! i = 9 \<Longrightarrow> unit_error txt i = ScanError_None"
  by (simp add: unit_error_def disallowedControl_def loneSurrogate_def
      isLowSurrogate_def isHighSurrogate_def)

lemma space_unit_ok:
  assumes "isSpaceOrTab (txt ! i)"
  shows "unit_error txt i = ScanError_None"
proof -
  from assms consider "txt ! i = 32" | "txt ! i = 9" by (auto simp add: isSpaceOrTab_def)
  then show ?thesis
  proof cases
    case 1
    then show ?thesis by (intro printable_unit_ok) simp_all
  next
    case 2
    then show ?thesis by (rule tab_unit_ok)
  qed
qed

lemma punct_unit_ok:
  assumes "txt ! i = 40 \<or> txt ! i = 41 \<or> txt ! i = 33 \<or> txt ! i = 58 \<or> txt ! i = 35"
  shows "unit_error txt i = ScanError_None"
proof -
  have "32 \<le> txt ! i \<and> txt ! i < 127" using assms by linarith
  then show ?thesis using printable_unit_ok by blast
qed

lemma lf_unit_ok: "txt ! i = 10 \<Longrightarrow> unit_error txt i = ScanError_None"
  by (simp add: unit_error_def disallowedControl_def loneSurrogate_def
      isLowSurrogate_def isHighSurrogate_def)

lemma cr_unit_ok:
  "txt ! i = 13 \<Longrightarrow> Suc i < length txt \<Longrightarrow> txt ! Suc i = 10
   \<Longrightarrow> unit_error txt i = ScanError_None"
  by (simp add: unit_error_def disallowedControl_def loneSurrogate_def
      isLowSurrogate_def isHighSurrogate_def)

lemma pair_units_ok:
  assumes "isHighSurrogate (txt ! i)" "Suc i < length txt" "isLowSurrogate (txt ! Suc i)"
  shows "unit_error txt i = ScanError_None" "unit_error txt (Suc i) = ScanError_None"
proof -
  have h: "\<not> isControl (txt ! i)" "\<not> isLowSurrogate (txt ! i)"
    using assms(1) by (auto simp add: isControl_def isLowSurrogate_def isHighSurrogate_def)
  have l: "\<not> isControl (txt ! Suc i)" "\<not> isHighSurrogate (txt ! Suc i)"
    using assms(3) by (auto simp add: isControl_def isLowSurrogate_def isHighSurrogate_def)
  show "unit_error txt i = ScanError_None"
    using assms h by (simp add: unit_error_def disallowedControl_def loneSurrogate_def)
  show "unit_error txt (Suc i) = ScanError_None"
    using assms l by (simp add: unit_error_def disallowedControl_def loneSurrogate_def)
qed


lemma scanError_emit: "scanError (snd (emit s k n e)) = e"
  by (simp add: emit_def)

lemma tokenOffset_emit: "tokenOffset (snd (emit s k n e)) = pos s"
  by (simp add: emit_def)

lemma tokenOffset_scan: "tokenOffset (snd (scan c s)) = pos s"
  by (simp add: scan_def Let_def tokenOffset_emit)

lemma scan_word:
  assumes "pos s < length (source s)" "isWordCharacter (source s ! pos s)"
  shows "pos (snd (scan c s)) = pos s + run_length isWordCharacter (source s) (pos s)"
  using assms by (simp add: scan_def Let_def pos_emit)

lemma scan_punct:
  assumes "pos s < length (source s)"
    "source s ! pos s = 40 \<or> source s ! pos s = 41 \<or> source s ! pos s = 33
     \<or> source s ! pos s = 58"
  shows "pos (snd (scan c s)) = pos s + 1"
proof -
  have "\<not> isWordCharacter (source s ! pos s)"
    using assms(2) unfolding isWordCharacter_def isLetter_def isDigit_def by linarith
  with assms show ?thesis by (auto simp add: scan_def Let_def pos_emit)
qed

lemma hash_not_word: "\<not> isWordCharacter 35"
  by (simp add: isWordCharacter_def isLetter_def isDigit_def)

lemma scan_comment:
  assumes "pos s < length (source s)" "source s ! pos s = 35" "c (source s) (pos s)"
  shows "scan c s = emit s Comment (run_length (\<lambda>x. \<not> isLineBreakUnit x) (source s) (pos s))
           (first_error (map (unit_error (source s))
              [pos s ..< pos s + run_length (\<lambda>x. \<not> isLineBreakUnit x) (source s) (pos s)]))"
  using assms by (simp add: scan_def Let_def hash_not_word)

lemma scan_hash:
  assumes "pos s < length (source s)" "source s ! pos s = 35" "\<not> c (source s) (pos s)"
  shows "pos (snd (scan c s)) = pos s + 1"
  using assms by (simp add: scan_def Let_def hash_not_word pos_emit)

lemma lf_not_word: "\<not> isWordCharacter 10"
  by (simp add: isWordCharacter_def isLetter_def isDigit_def)

lemma scan_lf:
  assumes "pos s < length (source s)" "source s ! pos s = 10"
  shows "pos (snd (scan c s)) = pos s + 1"
  using assms by (simp add: scan_def Let_def lf_not_word pos_emit)

lemma cr_not_word: "\<not> isWordCharacter 13"
  by (simp add: isWordCharacter_def isLetter_def isDigit_def)

lemma scan_crlf:
  assumes "pos s < length (source s)" "source s ! pos s = 13"
    "Suc (pos s) < length (source s)" "source s ! Suc (pos s) = 10"
  shows "pos (snd (scan c s)) = pos s + 2"
  using assms by (simp add: scan_def Let_def cr_not_word pos_emit)

lemma scan_space:
  assumes "pos s < length (source s)" "\<not> isWordCharacter (source s ! pos s) \<and> source s ! pos s \<noteq> 40
     \<and> source s ! pos s \<noteq> 41 \<and> source s ! pos s \<noteq> 33 \<and> source s ! pos s \<noteq> 58
     \<and> source s ! pos s \<noteq> 35 \<and> source s ! pos s \<noteq> 10
     \<and> \<not> (source s ! pos s = 13 \<and> Suc (pos s) < length (source s)
            \<and> source s ! Suc (pos s) = 10)"
    "isSpaceOrTab (source s ! pos s)"
  shows "pos (snd (scan c s)) = pos s + run_length isSpaceOrTab (source s) (pos s)"
  using assms by (auto simp add: scan_def Let_def pos_emit)

lemma scan_control:
  assumes "pos s < length (source s)" "\<not> isWordCharacter (source s ! pos s) \<and> source s ! pos s \<noteq> 40
     \<and> source s ! pos s \<noteq> 41 \<and> source s ! pos s \<noteq> 33 \<and> source s ! pos s \<noteq> 58
     \<and> source s ! pos s \<noteq> 35 \<and> source s ! pos s \<noteq> 10
     \<and> \<not> (source s ! pos s = 13 \<and> Suc (pos s) < length (source s)
            \<and> source s ! Suc (pos s) = 10)"
    "\<not> isSpaceOrTab (source s ! pos s)" "isControl (source s ! pos s)"
  shows "scanError (snd (scan c s)) = ScanError_InvalidCharacter"
  using assms by (auto simp add: scan_def Let_def scanError_emit)

lemma scan_pair:
  assumes "pos s < length (source s)" "\<not> isWordCharacter (source s ! pos s) \<and> source s ! pos s \<noteq> 40
     \<and> source s ! pos s \<noteq> 41 \<and> source s ! pos s \<noteq> 33 \<and> source s ! pos s \<noteq> 58
     \<and> source s ! pos s \<noteq> 35 \<and> source s ! pos s \<noteq> 10
     \<and> \<not> (source s ! pos s = 13 \<and> Suc (pos s) < length (source s)
            \<and> source s ! Suc (pos s) = 10)"
    "\<not> isSpaceOrTab (source s ! pos s)" "\<not> isControl (source s ! pos s)"
    "isHighSurrogate (source s ! pos s)" "Suc (pos s) < length (source s)"
    "isLowSurrogate (source s ! Suc (pos s))"
  shows "pos (snd (scan c s)) = pos s + 2"
  using assms by (auto simp add: scan_def Let_def pos_emit)

lemma scan_lone:
  assumes "pos s < length (source s)" "\<not> isWordCharacter (source s ! pos s) \<and> source s ! pos s \<noteq> 40
     \<and> source s ! pos s \<noteq> 41 \<and> source s ! pos s \<noteq> 33 \<and> source s ! pos s \<noteq> 58
     \<and> source s ! pos s \<noteq> 35 \<and> source s ! pos s \<noteq> 10
     \<and> \<not> (source s ! pos s = 13 \<and> Suc (pos s) < length (source s)
            \<and> source s ! Suc (pos s) = 10)"
    "\<not> isSpaceOrTab (source s ! pos s)" "\<not> isControl (source s ! pos s)"
    "\<not> (isHighSurrogate (source s ! pos s) \<and> Suc (pos s) < length (source s)
        \<and> isLowSurrogate (source s ! Suc (pos s)))"
    "isHighSurrogate (source s ! pos s) \<or> isLowSurrogate (source s ! pos s)"
  shows "scanError (snd (scan c s)) = ScanError_InvalidUnicode"
  using assms by (auto simp add: scan_def Let_def scanError_emit)

lemma scan_plain:
  assumes "pos s < length (source s)" "\<not> isWordCharacter (source s ! pos s) \<and> source s ! pos s \<noteq> 40
     \<and> source s ! pos s \<noteq> 41 \<and> source s ! pos s \<noteq> 33 \<and> source s ! pos s \<noteq> 58
     \<and> source s ! pos s \<noteq> 35 \<and> source s ! pos s \<noteq> 10
     \<and> \<not> (source s ! pos s = 13 \<and> Suc (pos s) < length (source s)
            \<and> source s ! Suc (pos s) = 10)"
    "\<not> isSpaceOrTab (source s ! pos s)" "\<not> isControl (source s ! pos s)"
    "\<not> isHighSurrogate (source s ! pos s)" "\<not> isLowSurrogate (source s ! pos s)"
  shows "pos (snd (scan c s)) = pos s + 1"
  using assms by (auto simp add: scan_def Let_def pos_emit)


lemma scan_reports:
  assumes inside: "pos s < length (source s)"
    and lo: "pos s \<le> i" and hi: "i < pos (snd (scan c s))"
    and quiet: "scanError (snd (scan c s)) = ScanError_None"
  shows "unit_error (source s) i = ScanError_None"
proof -
  let ?t = "source s" and ?p = "pos s"
  let ?u = "?t ! ?p"
  consider (word) "isWordCharacter ?u"
    | (punct) "?u = 40 \<or> ?u = 41 \<or> ?u = 33 \<or> ?u = 58"
    | (hash) "?u = 35"
    | (lf) "?u = 10"
    | (crlf) "?u = 13 \<and> Suc ?p < length ?t \<and> ?t ! Suc ?p = 10"
    | (other) "\<not> isWordCharacter ?u \<and> ?u \<noteq> 40 \<and> ?u \<noteq> 41 \<and> ?u \<noteq> 33 \<and> ?u \<noteq> 58
        \<and> ?u \<noteq> 35 \<and> ?u \<noteq> 10 \<and> \<not> (?u = 13 \<and> Suc ?p < length ?t \<and> ?t ! Suc ?p = 10)"
    by blast
  then show ?thesis
  proof cases
    case word
    from hi have "i < ?p + run_length isWordCharacter ?t ?p"
      by (simp only: scan_word [OF inside word])
    with lo have "isWordCharacter (?t ! i)" by (rule run_units)
    then show ?thesis by (rule word_unit_ok)
  next
    case punct
    from hi lo have "i = ?p" by (simp add: scan_punct [OF inside punct])
    with punct show ?thesis by (intro punct_unit_ok) auto
  next
    case hash
    show ?thesis
    proof (cases "c ?t ?p")
      case True
      let ?n = "run_length (\<lambda>x. \<not> isLineBreakUnit x) ?t ?p"
      note e = scan_comment [where s = s and c = c, OF inside hash True]
      from quiet have "first_error (map (unit_error ?t) [?p ..< ?p + ?n]) = ScanError_None"
        by (simp only: e scanError_emit)
      then have all: "\<forall>j \<in> set [?p ..< ?p + ?n]. unit_error ?t j = ScanError_None"
        by (simp add: first_error_None)
      from hi have "i < ?p + ?n" by (simp only: e pos_emit)
      with lo have "i \<in> set [?p ..< ?p + ?n]" by simp
      with all show ?thesis by blast
    next
      case False
      from hi lo have "i = ?p" by (simp add: scan_hash [where s = s and c = c, OF inside hash False])
      with hash show ?thesis by (intro punct_unit_ok) auto
    qed
  next
    case lf
    from hi lo have "i = ?p" by (simp add: scan_lf [OF inside lf])
    with lf show ?thesis by (intro lf_unit_ok) simp
  next
    case crlf
    then have c1: "?u = 13" and c2: "Suc ?p < length ?t" and c3: "?t ! Suc ?p = 10" by blast+
    from hi lo have "i = ?p \<or> i = Suc ?p"
      by (auto simp add: scan_crlf [OF inside c1 c2 c3])
    then show ?thesis
    proof
      assume "i = ?p"
      with c1 c2 c3 show ?thesis by (intro cr_unit_ok) simp_all
    next
      assume "i = Suc ?p"
      with c3 show ?thesis by (intro lf_unit_ok) simp
    qed
  next
    case other
    show ?thesis
    proof (cases "isSpaceOrTab ?u")
      case True
      from hi have "i < ?p + run_length isSpaceOrTab ?t ?p"
        by (simp only: scan_space [OF inside other True])
      with lo have "isSpaceOrTab (?t ! i)" by (rule run_units)
      then show ?thesis by (rule space_unit_ok)
    next
      case ns: False
      show ?thesis
      proof (cases "isControl ?u")
        case True
        from quiet show ?thesis by (simp add: scan_control [OF inside other ns True])
      next
        case nc: False
        show ?thesis
        proof (cases "isHighSurrogate ?u \<and> Suc ?p < length ?t \<and> isLowSurrogate (?t ! Suc ?p)")
          case True
          then have p1: "isHighSurrogate ?u" and p2: "Suc ?p < length ?t"
            and p3: "isLowSurrogate (?t ! Suc ?p)" by blast+
          from hi lo have "i = ?p \<or> i = Suc ?p"
            by (auto simp add: scan_pair [OF inside other ns nc p1 p2 p3])
          then show ?thesis
          proof
            assume "i = ?p"
            with p1 p2 p3 show ?thesis by (simp add: pair_units_ok(1))
          next
            assume "i = Suc ?p"
            with p1 p2 p3 show ?thesis by (simp add: pair_units_ok(2))
          qed
        next
          case npair: False
          show ?thesis
          proof (cases "isHighSurrogate ?u \<or> isLowSurrogate ?u")
            case True
            from quiet show ?thesis
              by (simp add: scan_lone [OF inside other ns nc npair True])
          next
            case False
            then have f1: "\<not> isHighSurrogate ?u" and f2: "\<not> isLowSurrogate ?u" by blast+
            from hi lo have "i = ?p"
              by (simp add: scan_plain [OF inside other ns nc f1 f2])
            with nc f1 f2 show ?thesis by (intro plain_unit_ok) simp_all
          qed
        qed
      qed
    qed
  qed
qed


lemma scans_Suc: "scans c (Suc k) s = snd (scan c (scans c k s))"
  by (induction k arbitrary: s) simp_all

lemma source_scans: "source (scans c k s) = source s"
  by (induction k arbitrary: s) (simp_all add: source_scan)

lemma scans_cover:
  assumes "pos s \<le> i" "i < length (source s)"
  shows "\<exists>k. pos (scans c k s) \<le> i \<and> i < pos (scans c (Suc k) s)"
  using assms
proof (induction "i - pos s" arbitrary: s rule: less_induct)
  case less
  from less.prems have inside: "pos s < length (source s)" by simp
  let ?s' = "snd (scan c s)"
  show ?case
  proof (cases "i < pos ?s'")
    case True
    with less.prems(1) have "pos (scans c 0 s) \<le> i \<and> i < pos (scans c (Suc 0) s)" by simp
    then show ?thesis by blast
  next
    case False
    have adv: "pos s < pos ?s'" using scan_advances [OF inside] by blast
    have "i - pos ?s' < i - pos s" using adv False less.prems(1) by linarith
    moreover have "pos ?s' \<le> i" using False by simp
    moreover have "i < length (source ?s')" using less.prems(2) by (simp add: source_scan)
    ultimately obtain k where "pos (scans c k ?s') \<le> i \<and> i < pos (scans c (Suc k) ?s')"
      using less.hyps by blast
    then have "pos (scans c (Suc k) s) \<le> i \<and> i < pos (scans c (Suc (Suc k)) s)" by simp
    then show ?thesis by blast
  qed
qed

lemma offending_unit_reported:
  assumes "i < length input" "unit_error input i \<noteq> ScanError_None"
  shows "\<exists>k. tokenOffset (scans c (Suc k) (createScanner input)) \<le> i
            \<and> i < pos (scans c (Suc k) (createScanner input))
            \<and> scanError (scans c (Suc k) (createScanner input)) \<noteq> ScanError_None"
proof -
  let ?s0 = "createScanner input"
  have s0: "pos ?s0 = 0" "source ?s0 = input" by (simp_all add: createScanner_def)
  from assms(1) obtain k where k: "pos (scans c k ?s0) \<le> i" "i < pos (scans c (Suc k) ?s0)"
    using scans_cover [of ?s0 i c] by (auto simp add: s0)
  let ?sk = "scans c k ?s0"
  have src: "source ?sk = input" by (simp add: source_scans s0)
  have nxt: "scans c (Suc k) ?s0 = snd (scan c ?sk)" by (rule scans_Suc)
  have inside: "pos ?sk < length (source ?sk)" using k(1) assms(1) by (simp add: src)
  have "scanError (snd (scan c ?sk)) \<noteq> ScanError_None"
  proof
    assume "scanError (snd (scan c ?sk)) = ScanError_None"
    with inside k have "unit_error (source ?sk) i = ScanError_None"
      by (intro scan_reports [where c = c]) (simp_all only: nxt [symmetric])
    with assms(2) show False by (simp add: src)
  qed
  moreover have "tokenOffset (snd (scan c ?sk)) \<le> i" using k(1) by (simp add: tokenOffset_scan)
  ultimately have "tokenOffset (scans c (Suc k) ?s0) \<le> i \<and> i < pos (scans c (Suc k) ?s0)
      \<and> scanError (scans c (Suc k) ?s0) \<noteq> ScanError_None"
    using k(2) by (simp only: nxt) blast
  then show ?thesis by (rule exI)
qed

subsection \<open>Offset queries\<close>







lemma nodes_of_self: "root \<in> set (nodes_of root)"
  by (cases root) simp

lemma nodes_of_child:
  "c \<in> set (children p) \<Longrightarrow> m \<in> set (nodes_of c) \<Longrightarrow> m \<in> set (nodes_of p)"
  by (cases p) auto






subsection \<open>The claims\<close>

text \<open>
  C8. For each of the fourteen error codes of the specification's taxonomy,
  \<open>printParseErrorCode\<close> returns the name of the code, and the labels of distinct codes
  are distinct (none of them is the default label either).
\<close>

theorem printParseErrorCode_names:
  "map (\<lambda>c. printParseErrorCode (ParseErrorCode_value c)) spec_error_codes =
     [''InvalidSymbol'', ''InvalidNumberFormat'', ''PropertyNameExpected'', ''ValueExpected'',
      ''ColonExpected'', ''CloseParenExpected'', ''EndOfFileExpected'', ''InvalidCommentToken'',
      ''UnexpectedEndOfComment'', ''UnexpectedEndOfString'', ''UnexpectedEndOfNumber'',
      ''InvalidUnicode'', ''InvalidEscapeCharacter'', ''InvalidCharacter'']
   \<and> distinct spec_error_codes
   \<and> distinct (map (\<lambda>c. printParseErrorCode (ParseErrorCode_value c)) spec_error_codes)
   \<and> ''<unknown ParseErrorCode>''
        \<notin> set (map (\<lambda>c. printParseErrorCode (ParseErrorCode_value c)) spec_error_codes)"
  by (simp add: spec_error_codes_def printParseErrorCode_def)




text \<open>
  C10. \<open>getCompletionBreakingExclamationMark\<close> returns no item when the header's breaking
  exclamation mark is there (truthy), and otherwise exactly one item, whose insert text is
  \<open>!\<close>; so the list never holds two items inserting \<open>!\<close>.
\<close>

theorem getCompletionBreakingExclamationMark_once:
  "(truthy (header_field breakingExclamationMark po)
      \<longrightarrow> getCompletionBreakingExclamationMark cs po = [])
   \<and> (\<not> truthy (header_field breakingExclamationMark po)
      \<longrightarrow> (\<exists>item. getCompletionBreakingExclamationMark cs po = [item]
             \<and> insertText item = Some ''!''))
   \<and> length (filter (\<lambda>item. insertText item = Some ''!'')
               (getCompletionBreakingExclamationMark cs po)) \<le> 1"
  by (simp add: getCompletionBreakingExclamationMark_def Let_def)

theorem getCompletionBreakingExclamationMark_once_witness:
  "truthy (header_field breakingExclamationMark example_breaking_outcome)
   \<and> getCompletionBreakingExclamationMark example_configSet example_breaking_outcome = []
   \<and> \<not> truthy (header_field breakingExclamationMark example_outcome)
   \<and> (\<exists>item. getCompletionBreakingExclamationMark example_configSet example_outcome = [item]
         \<and> insertText item = Some ''!'')"
proof -
  have h1: "truthy (header_field breakingExclamationMark example_breaking_outcome)"
    by (simp add: header_field_def example_breaking_outcome_def)
  have h2: "\<not> truthy (header_field breakingExclamationMark example_outcome)"
    by (simp add: header_field_def example_outcome_def)
  from h1 h2
    getCompletionBreakingExclamationMark_once [of example_breaking_outcome example_configSet]
    getCompletionBreakingExclamationMark_once [of example_outcome example_configSet]
  show ?thesis by blast
qed

text \<open>
  C6. For every scanner state (so for every input and every position, however the
  scanner got there) and every rule for where a comment starts: while the position is
  inside the input, \<open>scan\<close> moves it strictly forward and not past the end; at or past the
  end \<open>scan\<close> returns EOF and leaves the position alone, so once as many calls were made
  as units were left, every further call returns EOF, in particular after \<open>length input\<close>
  calls on a new scanner. A scanner that stands on a disallowed control character reports
  InvalidCharacter, one that stands on a surrogate outside a pair reports InvalidUnicode,
  and it moves one unit past either. For every input, every offending unit of it lies in
  a token of the scans from the start whose error is InvalidUnicode or InvalidCharacter,
  also when that token is a Comment. \<open>scan\<close> is a total function: no input makes it
  raise.
\<close>

theorem scan_progress:
  "(pos s < length (source s)
      \<longrightarrow> pos s < pos (snd (scan c s)) \<and> pos (snd (scan c s)) \<le> length (source s))
   \<and> (length (source s) \<le> pos s
      \<longrightarrow> fst (scan c s) = EOF \<and> pos (snd (scan c s)) = pos s)
   \<and> (length (source s) - pos s \<le> n \<longrightarrow> fst (scan c (scans c n s)) = EOF)
   \<and> (length input \<le> n \<longrightarrow> fst (scan c (scans c n (createScanner input))) = EOF)
   \<and> (pos s < length (source s) \<and> isControl (source s ! pos s)
        \<and> source s ! pos s \<noteq> 9 \<and> source s ! pos s \<noteq> 10
        \<and> \<not> (source s ! pos s = 13 \<and> Suc (pos s) < length (source s)
               \<and> source s ! Suc (pos s) = 10)
      \<longrightarrow> scanError (snd (scan c s)) = ScanError_InvalidCharacter
          \<and> pos (snd (scan c s)) = pos s + 1)
   \<and> (pos s < length (source s)
        \<and> (isLowSurrogate (source s ! pos s)
           \<or> (isHighSurrogate (source s ! pos s)
              \<and> \<not> (Suc (pos s) < length (source s)
                     \<and> isLowSurrogate (source s ! Suc (pos s)))))
      \<longrightarrow> scanError (snd (scan c s)) = ScanError_InvalidUnicode
          \<and> pos (snd (scan c s)) = pos s + 1)
   \<and> (i < length input \<and> unit_error input i \<noteq> ScanError_None
      \<longrightarrow> (\<exists>k. tokenOffset (scans c (Suc k) (createScanner input)) \<le> i
               \<and> i < pos (scans c (Suc k) (createScanner input))
               \<and> (scanError (scans c (Suc k) (createScanner input)) = ScanError_InvalidUnicode
                  \<or> scanError (scans c (Suc k) (createScanner input))
                      = ScanError_InvalidCharacter)))"
proof (intro conjI impI)
  assume "pos s < length (source s)"
  then show "pos s < pos (snd (scan c s))" "pos (snd (scan c s)) \<le> length (source s)"
    using scan_advances by blast+
next
  assume "length (source s) \<le> pos s"
  then show "fst (scan c s) = EOF" "pos (snd (scan c s)) = pos s"
    by (rule scan_EOF)+
next
  assume "length (source s) - pos s \<le> n"
  then have "length (source (scans c n s)) \<le> pos (scans c n s)" by (rule scans_exhausts)
  then show "fst (scan c (scans c n s)) = EOF" by (rule scan_EOF(1))
next
  assume "length input \<le> n"
  then have "length (source (createScanner input)) - pos (createScanner input) \<le> n"
    by (simp add: createScanner_def)
  then have "length (source (scans c n (createScanner input))) \<le> pos (scans c n (createScanner input))"
    by (rule scans_exhausts)
  then show "fst (scan c (scans c n (createScanner input))) = EOF" by (rule scan_EOF(1))
next
  assume a: "pos s < length (source s) \<and> isControl (source s ! pos s)
        \<and> source s ! pos s \<noteq> 9 \<and> source s ! pos s \<noteq> 10
        \<and> \<not> (source s ! pos s = 13 \<and> Suc (pos s) < length (source s)
               \<and> source s ! Suc (pos s) = 10)"
  then show "scanError (snd (scan c s)) = ScanError_InvalidCharacter"
    by (intro scan_invalid_character(1)) blast+
  from a show "pos (snd (scan c s)) = pos s + 1"
    by (intro scan_invalid_character(2)) blast+
next
  assume a: "pos s < length (source s)
        \<and> (isLowSurrogate (source s ! pos s)
           \<or> (isHighSurrogate (source s ! pos s)
              \<and> \<not> (Suc (pos s) < length (source s)
                     \<and> isLowSurrogate (source s ! Suc (pos s)))))"
  then show "scanError (snd (scan c s)) = ScanError_InvalidUnicode"
    by (intro scan_invalid_unicode(1)) blast+
  from a show "pos (snd (scan c s)) = pos s + 1"
    by (intro scan_invalid_unicode(2)) blast+
next
  assume "i < length input \<and> unit_error input i \<noteq> ScanError_None"
  then obtain k where k: "tokenOffset (scans c (Suc k) (createScanner input)) \<le> i"
    "i < pos (scans c (Suc k) (createScanner input))"
    "scanError (scans c (Suc k) (createScanner input)) \<noteq> ScanError_None"
    using offending_unit_reported [of i input c] by blast
  from k(3) have "scanError (scans c (Suc k) (createScanner input)) = ScanError_InvalidUnicode
      \<or> scanError (scans c (Suc k) (createScanner input)) = ScanError_InvalidCharacter"
    by (cases "scanError (scans c (Suc k) (createScanner input))") simp_all
  with k(1,2) show "\<exists>k. tokenOffset (scans c (Suc k) (createScanner input)) \<le> i
               \<and> i < pos (scans c (Suc k) (createScanner input))
               \<and> (scanError (scans c (Suc k) (createScanner input)) = ScanError_InvalidUnicode
                  \<or> scanError (scans c (Suc k) (createScanner input))
                      = ScanError_InvalidCharacter)"
    by blast
qed

theorem scan_progress_witness:
  "pos (createScanner malformed_text) < length (source (createScanner malformed_text))
   \<and> pos (createScanner malformed_text) < pos (snd (scan atLineStart (createScanner malformed_text)))
   \<and> pos (snd (scan atLineStart (createScanner malformed_text))) \<le> 4
   \<and> isLowSurrogate (malformed_text ! 1)
   \<and> scanError (snd (scan atLineStart (setPosition 1 (createScanner malformed_text))))
       = ScanError_InvalidUnicode
   \<and> pos (snd (scan atLineStart (setPosition 1 (createScanner malformed_text)))) = 2
   \<and> isControl (malformed_text ! 2)
   \<and> scanError (snd (scan atLineStart (setPosition 2 (createScanner malformed_text))))
       = ScanError_InvalidCharacter
   \<and> pos (snd (scan atLineStart (setPosition 2 (createScanner malformed_text)))) = 3
   \<and> fst (scan atLineStart (setPosition 4 (createScanner malformed_text))) = EOF
   \<and> pos (snd (scan atLineStart (setPosition 4 (createScanner malformed_text)))) = 4
   \<and> fst (scan atLineStart (scans atLineStart 1 (setPosition 3 (createScanner malformed_text)))) = EOF
   \<and> fst (scan atLineStart (scans atLineStart 4 (createScanner malformed_text))) = EOF
   \<and> fst (scan atLineStart (scans atLineStart 9 (createScanner malformed_text))) = EOF
   \<and> unit_error comment_text 1 = ScanError_InvalidCharacter
   \<and> (\<exists>k. tokenOffset (scans atLineStart (Suc k) (createScanner comment_text)) \<le> 1
         \<and> 1 < pos (scans atLineStart (Suc k) (createScanner comment_text))
         \<and> (scanError (scans atLineStart (Suc k) (createScanner comment_text))
               = ScanError_InvalidUnicode
            \<or> scanError (scans atLineStart (Suc k) (createScanner comment_text))
               = ScanError_InvalidCharacter))
   \<and> fst (scan atLineStart (createScanner comment_text)) = Comment
   \<and> pos (snd (scan atLineStart (createScanner comment_text))) = 2
   \<and> scanError (snd (scan atLineStart (createScanner comment_text)))
       = ScanError_InvalidCharacter"
proof -
  let ?s0 = "createScanner malformed_text"
  have s0: "source ?s0 = malformed_text" "pos ?s0 = 0"
    by (simp_all add: createScanner_def)
  have sp: "\<And>k. source (setPosition k ?s0) = malformed_text" "\<And>k. pos (setPosition k ?s0) = k"
    by (simp_all add: createScanner_def setPosition_def)
  have len: "length malformed_text = 4" by (simp add: malformed_text_def)
  have u: "malformed_text ! 1 = 56320" "malformed_text ! Suc 0 = 56320" "malformed_text ! 2 = 7"
    "malformed_text ! Suc 2 = 55357" "malformed_text ! 3 = 55357"
    by (simp_all add: malformed_text_def)
  have c1: "isLowSurrogate (malformed_text ! 1)" by (simp add: u isLowSurrogate_def)
  have c2: "isControl (malformed_text ! 2)" by (simp add: u isControl_def)
  note a = scan_progress [where s = "?s0" and c = atLineStart and n = 4 and input = malformed_text]
  note b = scan_progress [where s = "setPosition 1 ?s0" and c = atLineStart and n = 9
      and input = malformed_text]
  note d = scan_progress [where s = "setPosition 2 ?s0" and c = atLineStart]
  note e = scan_progress [where s = "setPosition 4 ?s0" and c = atLineStart]
  note f = scan_progress [where s = "setPosition 3 ?s0" and c = atLineStart and n = 1]
  have t1: "pos ?s0 < length (source ?s0) \<and> pos ?s0 < pos (snd (scan atLineStart ?s0))
      \<and> pos (snd (scan atLineStart ?s0)) \<le> 4
      \<and> fst (scan atLineStart (scans atLineStart 4 ?s0)) = EOF"
    using a by (simp add: s0 len)
  have t2: "scanError (snd (scan atLineStart (setPosition 1 ?s0))) = ScanError_InvalidUnicode
      \<and> pos (snd (scan atLineStart (setPosition 1 ?s0))) = 2
      \<and> fst (scan atLineStart (scans atLineStart 9 ?s0)) = EOF"
    using b c1 by (simp add: sp len)
  have t3: "scanError (snd (scan atLineStart (setPosition 2 ?s0))) = ScanError_InvalidCharacter
      \<and> pos (snd (scan atLineStart (setPosition 2 ?s0))) = 3"
    using d c2 by (simp add: sp len u)
  have t4: "fst (scan atLineStart (setPosition 4 ?s0)) = EOF
      \<and> pos (snd (scan atLineStart (setPosition 4 ?s0))) = 4"
    using e by (simp add: sp len)
  have t5: "fst (scan atLineStart (scans atLineStart 1 (setPosition 3 ?s0))) = EOF"
    using f by (simp add: sp len)
  note g = scan_progress [where c = atLineStart and input = comment_text and i = 1]
  have c3: "unit_error comment_text 1 = ScanError_InvalidCharacter"
    by (simp add: comment_text_def unit_error_def disallowedControl_def isControl_def)
  have l6: "1 < length comment_text" by (simp add: comment_text_def)
  have e6: "unit_error comment_text 1 \<noteq> ScanError_None" by (simp only: c3) simp
  have h6: "1 < length comment_text \<and> unit_error comment_text 1 \<noteq> ScanError_None"
    using l6 e6 by (rule conjI)
  have t6: "\<exists>k. tokenOffset (scans atLineStart (Suc k) (createScanner comment_text)) \<le> 1
         \<and> 1 < pos (scans atLineStart (Suc k) (createScanner comment_text))
         \<and> (scanError (scans atLineStart (Suc k) (createScanner comment_text))
               = ScanError_InvalidUnicode
            \<or> scanError (scans atLineStart (Suc k) (createScanner comment_text))
               = ScanError_InvalidCharacter)"
    by (rule mp [OF conjunct2 [OF conjunct2 [OF conjunct2 [OF conjunct2 [OF conjunct2
        [OF conjunct2 [OF g]]]]]] h6])
  have t7: "fst (scan atLineStart (createScanner comment_text)) = Comment
      \<and> pos (snd (scan atLineStart (createScanner comment_text))) = 2
      \<and> scanError (snd (scan atLineStart (createScanner comment_text)))
          = ScanError_InvalidCharacter"
    by (simp add: scan_def Let_def createScanner_def emit_def comment_text_def atLineStart_def
        run_length_def isWordCharacter_def isLetter_def isDigit_def isLineBreakUnit_def
        unit_error_def disallowedControl_def loneSurrogate_def isControl_def
        isLowSurrogate_def isHighSurrogate_def upt_rec [of 0] upt_rec [of 1] upt_rec [of 2])
  from t1 t2 t3 t4 t5 t6 t7 c1 c2 c3 show ?thesis by blast
qed




end
